theory Spec2Isabelle
  imports Main "HOL-Library.Word"
begin

unbundle bit_operations_syntax

section \<open>Values, errors and attribute access\<close>

text \<open>
  Python integers are unbounded and are modelled as \<open>int\<close>; a \<open>bytes\<close> object is a list of
  octets. Every exception the code can raise is a value of \<open>error\<close>. The four
  \<open>ValueError\<close>s of the source are told apart by the check that raises them; reading an
  instance attribute that has not been assigned yet gives \<open>AttributeError\<close>, indexing a list
  past its end \<open>IndexError\<close>, and \<open>int.to_bytes\<close> on a value that does not fit
  \<open>OverflowError\<close>.
\<close>

type_synonym bytes = "8 word list"

datatype error =
    InvalidKeyLength
  | InvalidBlockLength
  | InvalidTagLength
  | AuthenticationFailure
  | AttributeError
  | IndexError
  | OverflowError

definition bind_err :: "error + 'a \<Rightarrow> ('a \<Rightarrow> error + 'b) \<Rightarrow> error + 'b" where
  "bind_err m f = (case m of Inl e \<Rightarrow> Inl e | Inr v \<Rightarrow> f v)"

definition nth_err :: "'a list \<Rightarrow> nat \<Rightarrow> error + 'a" where
  "nth_err xs i = (if i < length xs then Inr (xs ! i) else Inl IndexError)"

definition attr :: "'a option \<Rightarrow> error + 'a" where
  "attr a = (case a of None \<Rightarrow> Inl AttributeError | Some v \<Rightarrow> Inr v)"

section \<open>sm4_basic.py: constants\<close>

definition Sbox :: "int list" where
  "Sbox = [
    0xd6, 0x90, 0xe9, 0xfe, 0xcc, 0xe1, 0x3d, 0xb7, 0x16, 0xb6, 0x14, 0xc2, 0x28, 0xfb, 0x2c, 0x05,
    0x2b, 0x67, 0x9a, 0x76, 0x2a, 0xbe, 0x04, 0xc3, 0xaa, 0x44, 0x13, 0x26, 0x49, 0x86, 0x06, 0x99,
    0x9c, 0x42, 0x50, 0xf4, 0x91, 0xef, 0x98, 0x7a, 0x33, 0x54, 0x0b, 0x43, 0xed, 0xcf, 0xac, 0x62,
    0xe4, 0xb3, 0x1c, 0xa9, 0xc9, 0x08, 0xe8, 0x95, 0x80, 0xdf, 0x94, 0xfa, 0x75, 0x8f, 0x3f, 0xa6,
    0x47, 0x07, 0xa7, 0xfc, 0xf3, 0x73, 0x17, 0xba, 0x83, 0x59, 0x3c, 0x19, 0xe6, 0x85, 0x4f, 0xa8,
    0x68, 0x6b, 0x81, 0xb2, 0x71, 0x64, 0xda, 0x8b, 0xf8, 0xeb, 0x0f, 0x4b, 0x70, 0x56, 0x9d, 0x35,
    0x1e, 0x24, 0x0e, 0x5e, 0x63, 0x58, 0xd1, 0xa2, 0x25, 0x22, 0x7c, 0x3b, 0x01, 0x0d, 0x2d, 0x02,
    0x1f, 0x55, 0x82, 0xd5, 0x40, 0xc7, 0x31, 0xa1, 0x74, 0x03, 0xf7, 0xf2, 0xce, 0xf9, 0x61, 0x15,
    0xa0, 0x38, 0xe0, 0x41, 0x7f, 0x00, 0x2e, 0xee, 0xb8, 0x56, 0x0c, 0xbc, 0xd2, 0x79, 0x20, 0x9f,
    0xb4, 0x5b, 0x6a, 0xcb, 0xbe, 0x39, 0x4a, 0x4c, 0x58, 0x27, 0x31, 0xd6, 0x1e, 0x14, 0x6c, 0x48,
    0x97, 0xc2, 0x0a, 0xf1, 0x6e, 0x3d, 0x29, 0x2b, 0x07, 0x5b, 0xbb, 0x43, 0x96, 0x42, 0x06, 0x8f,
    0x0c, 0x7d, 0x37, 0x21, 0x12, 0x7a, 0x60, 0x59, 0xcb, 0xcc, 0x83, 0x3e, 0x0b, 0x49, 0x03, 0xf0,
    0x13, 0x8a, 0x9d, 0x81, 0x5f, 0xdb, 0xa4, 0x45, 0x9b, 0x73, 0x28, 0x20, 0x95, 0x66, 0x94, 0x3b,
    0x09, 0xe3, 0x6f, 0x57, 0x44, 0x5c, 0x36, 0x02, 0xe0, 0x01, 0x11, 0x72, 0x90, 0xd8, 0x84, 0x10,
    0x87, 0xec, 0x1f, 0x88, 0x05, 0x5a, 0x65, 0x89, 0x51, 0x92, 0x1c, 0x75, 0xca, 0x1d, 0x04, 0x2f,
    0x2a, 0x50, 0x86, 0x9a, 0x1b, 0x7b, 0x46, 0x47, 0x98, 0xa3, 0x6d, 0x23, 0x0f, 0x5e, 0x7e, 0xc1
  ]"

definition FK :: "int list" where
  "FK = [0xA3B1BAC6, 0x56AA3350, 0x677D9197, 0xB27022DC]"

definition CK :: "int list" where
  "CK = [
    0x00070e15, 0x1c232a31, 0x383f464d, 0x545b6269,
    0x70777e85, 0x8c939aa1, 0xa8afb6bd, 0xc4cbd2d9,
    0xe0e7eef5, 0xfc030a11, 0x181f262d, 0x343b4249,
    0x50575e65, 0x6c737a81, 0x888f969d, 0xa4abb2b9,
    0xc0c7ced5, 0xdce3eaf1, 0xf8ff060d, 0x141b2229,
    0x30373e45, 0x4c535a61, 0x686f767d, 0x848b9299,
    0xa0a7aeb5, 0xbcc3cad1, 0xd8dfe6ed, 0xf4fb0209,
    0x10171e25, 0x2c333a41, 0x484f565d, 0x646b7279
  ]"

section \<open>sm4_basic.py and sm4_optimized.py: the cipher objects\<close>

text \<open>
  \<open>SM4Optimized\<close> subclasses \<open>SM4\<close> and overrides \<open>_t_function\<close>; every call
  \<open>self._t_function(...)\<close> is dispatched on the class of the object. The object is a record
  of the class tag and the instance attributes that the constructors assign one after the
  other: \<open>round_keys\<close> and \<open>T_table\<close> are \<open>None\<close> until their assignment has run. The
  tables \<open>Sbox\<close>, \<open>FK\<close> and \<open>CK\<close> are assigned first in \<open>SM4.__init__\<close>, before any
  method runs, to the constants above.
\<close>

datatype sm4_class = SM4Basic | SM4Optimized

record sm4 =
  cls :: sm4_class
  key :: bytes
  round_keys :: "int list option"
  T_table :: "int list list option"

definition rotate_left :: "int \<Rightarrow> nat \<Rightarrow> int" where
  "rotate_left x n = (push_bit n x AND 0xFFFFFFFF) OR (drop_bit (32 - n) x AND 0xFFFFFFFF)"

text \<open>\<open>_sbox\<close>: every caller passes an index between 0 and 255 (lemma \<open>byte_index\<close>).\<close>

definition sbox :: "int \<Rightarrow> int" where
  "sbox x = Sbox ! nat x"

text \<open>The linear transform written at the end of \<open>SM4._t_function\<close>.\<close>

definition linear_L :: "int \<Rightarrow> int" where
  "linear_L x = x XOR rotate_left x 2 XOR rotate_left x 10 XOR rotate_left x 18 XOR rotate_left x 24"

definition SM4_t_function :: "int \<Rightarrow> int" where
  "SM4_t_function x =
     (let x0 = sbox (drop_bit 24 x AND 0xFF);
          x1 = sbox (drop_bit 16 x AND 0xFF);
          x2 = sbox (drop_bit 8 x AND 0xFF);
          x3 = sbox (x AND 0xFF);
          y = push_bit 24 x0 OR push_bit 16 x1 OR push_bit 8 x2 OR x3
      in linear_L y)"

definition SM4Optimized_t_function :: "sm4 \<Rightarrow> int \<Rightarrow> error + int" where
  "SM4Optimized_t_function s x =
     (let x0 = nat (drop_bit 24 x AND 0xFF);
          x1 = nat (drop_bit 16 x AND 0xFF);
          x2 = nat (drop_bit 8 x AND 0xFF);
          x3 = nat (x AND 0xFF)
      in bind_err (attr (T_table s)) (\<lambda>T.
         bind_err (bind_err (nth_err T 0) (\<lambda>t. nth_err t x0)) (\<lambda>v0.
         bind_err (bind_err (nth_err T 1) (\<lambda>t. nth_err t x1)) (\<lambda>v1.
         bind_err (bind_err (nth_err T 2) (\<lambda>t. nth_err t x2)) (\<lambda>v2.
         bind_err (bind_err (nth_err T 3) (\<lambda>t. nth_err t x3)) (\<lambda>v3.
         Inr (v0 XOR v1 XOR v2 XOR v3)))))))"

text \<open>\<open>self._t_function(x)\<close>: the method of the object's class.\<close>

definition t_function :: "sm4 \<Rightarrow> int \<Rightarrow> error + int" where
  "t_function s x =
     (case cls s of
        SM4Basic \<Rightarrow> Inr (SM4_t_function x)
      | SM4Optimized \<Rightarrow> SM4Optimized_t_function s x)"

text \<open>Four big-endian 32-bit words of a 16-byte string.\<close>

definition word_at :: "bytes \<Rightarrow> nat \<Rightarrow> int" where
  "word_at b i =
     push_bit 24 (uint (b ! (4 * i))) OR push_bit 16 (uint (b ! (4 * i + 1))) OR
     push_bit 8 (uint (b ! (4 * i + 2))) OR uint (b ! (4 * i + 3))"

definition words_of :: "bytes \<Rightarrow> int \<times> int \<times> int \<times> int" where
  "words_of b = (word_at b 0, word_at b 1, word_at b 2, word_at b 3)"

fun key_rounds :: "sm4 \<Rightarrow> nat list \<Rightarrow> int \<times> int \<times> int \<times> int \<Rightarrow> int list \<Rightarrow> error + int list" where
  "key_rounds s [] K rks = Inr rks"
| "key_rounds s (i # is) (k0, k1, k2, k3) rks =
     bind_err (nth_err CK i) (\<lambda>ck.
     bind_err (t_function s (k1 XOR k2 XOR k3 XOR ck)) (\<lambda>t.
       let rk = k0 XOR t in key_rounds s is (k1, k2, k3, rk) (rks @ [rk])))"

definition generate_round_keys :: "sm4 \<Rightarrow> error + int list" where
  "generate_round_keys s =
     key_rounds s [0..<32]
       (word_at (key s) 0 XOR FK ! 0, word_at (key s) 1 XOR FK ! 1,
        word_at (key s) 2 XOR FK ! 2, word_at (key s) 3 XOR FK ! 3) []"

text \<open>The 32 rounds of \<open>encrypt_block\<close> and \<open>decrypt_block\<close>; \<open>idx\<close> lists the round-key
  index used in each round.\<close>

fun rounds :: "sm4 \<Rightarrow> int list \<Rightarrow> nat list \<Rightarrow> int \<times> int \<times> int \<times> int \<Rightarrow>
    error + (int \<times> int \<times> int \<times> int)" where
  "rounds s rk [] X = Inr X"
| "rounds s rk (i # is) (x0, x1, x2, x3) =
     bind_err (nth_err rk i) (\<lambda>k.
     bind_err (t_function s (x1 XOR x2 XOR x3 XOR k)) (\<lambda>t.
       rounds s rk is (x1, x2, x3, x0 XOR t)))"

definition bytes_of_int128 :: "int \<Rightarrow> bytes" where
  "bytes_of_int128 c =
     map (\<lambda>sh. word_of_int (drop_bit sh c AND 0xFF))
       [120, 112, 104, 96, 88, 80, 72, 64, 56, 48, 40, 32, 24, 16, 8, 0]"

definition reverse_pack :: "int \<times> int \<times> int \<times> int \<Rightarrow> bytes" where
  "reverse_pack X =
     (case X of (x0, x1, x2, x3) \<Rightarrow>
        bytes_of_int128 (push_bit 96 x3 OR push_bit 64 x2 OR push_bit 32 x1 OR x0))"

definition encrypt_block :: "sm4 \<Rightarrow> bytes \<Rightarrow> error + bytes" where
  "encrypt_block s plaintext =
     (if length plaintext \<noteq> 16 then Inl InvalidBlockLength
      else bind_err (attr (round_keys s)) (\<lambda>rk.
           bind_err (rounds s rk [0..<32] (words_of plaintext)) (\<lambda>X.
           Inr (reverse_pack X))))"

definition decrypt_block :: "sm4 \<Rightarrow> bytes \<Rightarrow> error + bytes" where
  "decrypt_block s ciphertext =
     (if length ciphertext \<noteq> 16 then Inl InvalidBlockLength
      else bind_err (attr (round_keys s)) (\<lambda>rk.
           bind_err (rounds s rk (map (\<lambda>i. 31 - i) [0..<32]) (words_of ciphertext)) (\<lambda>X.
           Inr (reverse_pack X))))"

text \<open>\<open>SM4.__init__\<close>, run on an object of class \<open>c\<close>.\<close>

definition SM4_init :: "sm4_class \<Rightarrow> bytes \<Rightarrow> error + sm4" where
  "SM4_init c k =
     (if length k \<noteq> 16 then Inl InvalidKeyLength
      else let s = \<lparr>cls = c, key = k, round_keys = None, T_table = None\<rparr>
           in bind_err (generate_round_keys s) (\<lambda>rks. Inr (s\<lparr>round_keys := Some rks\<rparr>)))"

text \<open>\<open>_precompute_tables\<close>: four tables of 256 zeros, then entry \<open>i\<close> of each is written.\<close>

definition table_step :: "nat \<Rightarrow> int list list \<Rightarrow> int list list" where
  "table_step i T =
     (let s = sbox (int i);
          val0 = push_bit 24 s;
          val0 = val0 XOR (rotate_left val0 2 XOR rotate_left val0 10 XOR rotate_left val0 18
                   XOR rotate_left val0 24);
          T = T[0 := (T ! 0)[i := val0]];
          val1 = push_bit 16 s;
          val1 = val1 XOR (rotate_left val1 2 XOR rotate_left val1 10 XOR rotate_left val1 18
                   XOR rotate_left val1 24);
          T = T[1 := (T ! 1)[i := val1]];
          val2 = push_bit 8 s;
          val2 = val2 XOR (rotate_left val2 2 XOR rotate_left val2 10 XOR rotate_left val2 18
                   XOR rotate_left val2 24);
          T = T[2 := (T ! 2)[i := val2]];
          val3 = s;
          val3 = val3 XOR (rotate_left val3 2 XOR rotate_left val3 10 XOR rotate_left val3 18
                   XOR rotate_left val3 24);
          T = T[3 := (T ! 3)[i := val3]]
      in T)"

definition precompute_tables :: "sm4 \<Rightarrow> sm4" where
  "precompute_tables s =
     s\<lparr>T_table := Some (fold table_step [0..<256] (replicate 4 (replicate 256 0)))\<rparr>"

text \<open>\<open>SM4Optimized.__init__\<close>: the base constructor first, then the tables.\<close>

definition SM4Optimized_init :: "bytes \<Rightarrow> error + sm4" where
  "SM4Optimized_init k =
     bind_err (SM4_init SM4Optimized k) (\<lambda>s. Inr (precompute_tables s))"

section \<open>sm4_gcm.py: Galois/Counter mode\<close>

text \<open>
  The session object. \<open>sm4\<close>, \<open>tag_length\<close> and \<open>nonce\<close> are assigned first by
  \<open>SM4GCM.__init__\<close>; \<open>initial_counter\<close> and \<open>H\<close> are assigned later, in this order, and
  are \<open>None\<close> until then. The nonce is the caller's (the \<open>os.urandom\<close> default is left
  out).
\<close>

record gcm =
  sm4 :: sm4
  tag_length :: nat
  nonce :: bytes
  initial_counter :: "bytes option"
  H :: "bytes option"

text \<open>\<open>int.from_bytes(b, 'big')\<close> and \<open>n.to_bytes(len, 'big')\<close>.\<close>

definition from_bytes_big :: "bytes \<Rightarrow> int" where
  "from_bytes_big bs = foldl (\<lambda>acc b. acc * 256 + uint b) 0 bs"

definition to_bytes_big :: "nat \<Rightarrow> int \<Rightarrow> error + bytes" where
  "to_bytes_big n y =
     (if y < 0 \<or> 2 ^ (8 * n) \<le> y then Inl OverflowError
      else Inr (map (\<lambda>j. word_of_int (drop_bit (8 * (n - 1 - j)) y)) [0..<n]))"

definition increment_counter :: "bytes \<Rightarrow> error + bytes" where
  "increment_counter counter =
     (let counter_int = from_bytes_big (take 4 (drop 12 counter));
          counter_int = counter_int + 1
      in bind_err (to_bytes_big 4 counter_int) (\<lambda>low. Inr (take 12 counter @ low)))"

text \<open>\<open>for i in range(0, len(data), 16): block = data[i:i + 16]\<close>.\<close>

fun chunks16 :: "'a list \<Rightarrow> 'a list list" where
  "chunks16 xs = (if xs = [] then [] else take 16 xs # chunks16 (drop 16 xs))"

declare chunks16.simps [simp del]

definition pad16 :: "bytes \<Rightarrow> bytes" where
  "pad16 block = (if length block < 16 then block @ replicate (16 - length block) 0 else block)"

definition galois_step :: "int \<Rightarrow> int \<Rightarrow> int \<Rightarrow> nat \<Rightarrow> int" where
  "galois_step x h y i =
     (let p = 0x87 OR push_bit 128 1;
          y = push_bit 1 y;
          y = (if drop_bit i x AND 1 \<noteq> 0 then y XOR h else y);
          y = (if drop_bit 128 y \<noteq> 0 then y XOR p else y)
      in y)"

definition galois_multiply :: "int \<Rightarrow> int \<Rightarrow> int" where
  "galois_multiply x h = foldl (galois_step x h) 0 (rev [0..<128])"

definition ghash :: "bytes \<Rightarrow> bytes \<Rightarrow> bytes \<Rightarrow> error + bytes" where
  "ghash auth_data ciphertext Hk =
     (let blocks = map (\<lambda>block. from_bytes_big (pad16 block)) (chunks16 auth_data);
          blocks = blocks @ map (\<lambda>block. from_bytes_big (pad16 block)) (chunks16 ciphertext);
          len_auth = int (length auth_data) * 8;
          len_cipher = int (length ciphertext) * 8;
          len_block = push_bit 64 len_auth OR len_cipher;
          blocks = blocks @ [len_block];
          h = from_bytes_big Hk;
          y = foldl (\<lambda>y block. galois_multiply (y XOR block) h) 0 blocks
      in to_bytes_big 16 y)"

definition constant_time_compare :: "bytes \<Rightarrow> bytes \<Rightarrow> bool" where
  "constant_time_compare a b =
     (if length a \<noteq> length b then False
      else foldl (\<lambda>result (x, y). result OR (x XOR y)) 0 (zip a b) = 0)"

definition generate_initial_counter :: "gcm \<Rightarrow> error + bytes" where
  "generate_initial_counter g =
     (if length (nonce g) = 12 then Inr (nonce g @ [0, 0, 0, 1])
      else bind_err (attr (H g)) (\<lambda>h. ghash (nonce g) [] h))"

text \<open>\<open>SM4GCM.__init__\<close> after \<open>self.sm4 = SM4Optimized(key)\<close> has returned the object
  \<open>c\<close>.\<close>

definition SM4GCM_setup :: "sm4 \<Rightarrow> bytes \<Rightarrow> nat \<Rightarrow> error + gcm" where
  "SM4GCM_setup c n tlen =
     (let g = \<lparr>sm4 = c, tag_length = tlen, nonce = n, initial_counter = None, H = None\<rparr>
      in bind_err (generate_initial_counter g) (\<lambda>ic.
         bind_err (encrypt_block c (replicate 16 0)) (\<lambda>h.
         Inr (g\<lparr>initial_counter := Some ic, H := Some h\<rparr>))))"

definition SM4GCM_init :: "bytes \<Rightarrow> bytes \<Rightarrow> nat \<Rightarrow> error + gcm" where
  "SM4GCM_init k n tlen = bind_err (SM4Optimized_init k) (\<lambda>c. SM4GCM_setup c n tlen)"

subsection \<open>Calls with a record of what they did\<close>

text \<open>
  \<open>encrypt\<close> and \<open>decrypt\<close> are modelled together with the list of the block-cipher
  calls and tag comparisons they make, in the order in which they make them, so that
  statements about what happens before an exception is raised can be expressed.
\<close>

datatype event = BlockEncrypt bytes | TagCompare bytes bytes

type_synonym 'a traced = "event list \<times> (error + 'a)"

definition pure_t :: "error + 'a \<Rightarrow> 'a traced" where
  "pure_t m = ([], m)"

definition bind_t :: "'a traced \<Rightarrow> ('a \<Rightarrow> 'b traced) \<Rightarrow> 'b traced" where
  "bind_t m f =
     (case snd m of
        Inl e \<Rightarrow> (fst m, Inl e)
      | Inr v \<Rightarrow> (fst m @ fst (f v), snd (f v)))"

definition block_encrypt_t :: "sm4 \<Rightarrow> bytes \<Rightarrow> bytes traced" where
  "block_encrypt_t c b = ([BlockEncrypt b], encrypt_block c b)"

definition compare_t :: "bytes \<Rightarrow> bytes \<Rightarrow> bool traced" where
  "compare_t a b = ([TagCompare a b], Inr (constant_time_compare a b))"

text \<open>The counter-mode loop, written twice in the source (in \<open>encrypt\<close> and in
  \<open>decrypt\<close>) with the same body.\<close>

fun ctr_loop :: "sm4 \<Rightarrow> bytes list \<Rightarrow> bytes \<Rightarrow> bytes \<Rightarrow> bytes traced" where
  "ctr_loop c [] counter out = pure_t (Inr out)"
| "ctr_loop c (block # bs) counter out =
     bind_t (block_encrypt_t c counter) (\<lambda>keystream.
     bind_t (pure_t (increment_counter counter)) (\<lambda>counter'.
       ctr_loop c bs counter' (out @ map2 (XOR) block keystream)))"

definition encrypt_t :: "gcm \<Rightarrow> bytes \<Rightarrow> bytes \<Rightarrow> (bytes \<times> bytes) traced" where
  "encrypt_t g plaintext auth_data =
     bind_t (pure_t (attr (initial_counter g))) (\<lambda>counter.
     bind_t (ctr_loop (sm4 g) (chunks16 plaintext) counter []) (\<lambda>ciphertext.
     bind_t (pure_t (attr (H g))) (\<lambda>h.
     bind_t (pure_t (ghash auth_data ciphertext h)) (\<lambda>tag.
     bind_t (pure_t (attr (initial_counter g))) (\<lambda>ic.
     bind_t (block_encrypt_t (sm4 g) ic) (\<lambda>tag_encrypted.
       pure_t (Inr (ciphertext, take (tag_length g) (map2 (XOR) tag tag_encrypted)))))))))"

definition decrypt_t :: "gcm \<Rightarrow> bytes \<Rightarrow> bytes \<Rightarrow> bytes \<Rightarrow> bytes traced" where
  "decrypt_t g ciphertext tag auth_data =
     (if length tag \<noteq> tag_length g then pure_t (Inl InvalidTagLength)
      else
        bind_t (pure_t (attr (initial_counter g))) (\<lambda>ic.
        bind_t (block_encrypt_t (sm4 g) ic) (\<lambda>tag_encrypted.
        bind_t (pure_t (Inr (pad16 (map2 (XOR) tag tag_encrypted)))) (\<lambda>tag_decrypted.
        bind_t (pure_t (attr (H g))) (\<lambda>h.
        bind_t (pure_t (ghash auth_data ciphertext h)) (\<lambda>computed_tag.
        bind_t (compare_t tag_decrypted computed_tag) (\<lambda>same.
          if \<not> same then pure_t (Inl AuthenticationFailure)
          else
            bind_t (pure_t (attr (initial_counter g))) (\<lambda>counter.
              ctr_loop (sm4 g) (chunks16 ciphertext) counter []))))))))"

text \<open>What the caller gets: the value returned or the exception raised.\<close>

definition encrypt :: "gcm \<Rightarrow> bytes \<Rightarrow> bytes \<Rightarrow> error + (bytes \<times> bytes)" where
  "encrypt g plaintext auth_data = snd (encrypt_t g plaintext auth_data)"

definition decrypt :: "gcm \<Rightarrow> bytes \<Rightarrow> bytes \<Rightarrow> bytes \<Rightarrow> error + bytes" where
  "decrypt g ciphertext tag auth_data = snd (decrypt_t g ciphertext tag auth_data)"

section \<open>Concrete inputs\<close>

text \<open>The two entries of \<open>TEST_VECTORS\<close> in test.py: key and plaintext.\<close>

definition vector1_key :: bytes where
  "vector1_key = [0x01, 0x23, 0x45, 0x67, 0x89, 0xab, 0xcd, 0xef,
                  0xfe, 0xdc, 0xba, 0x98, 0x76, 0x54, 0x32, 0x10]"

definition vector1_plaintext :: bytes where
  "vector1_plaintext = [0x01, 0x23, 0x45, 0x67, 0x89, 0xab, 0xcd, 0xef,
                        0xfe, 0xdc, 0xba, 0x98, 0x76, 0x54, 0x32, 0x10]"

definition vector2_key :: bytes where
  "vector2_key = [0x00, 0x01, 0x02, 0x03, 0x04, 0x05, 0x06, 0x07,
                  0x08, 0x09, 0x0a, 0x0b, 0x0c, 0x0d, 0x0e, 0x0f]"

definition vector2_plaintext :: bytes where
  "vector2_plaintext = [0x00, 0x11, 0x22, 0x33, 0x44, 0x55, 0x66, 0x77,
                        0x88, 0x99, 0xaa, 0xbb, 0xcc, 0xdd, 0xee, 0xff]"

text \<open>The ciphertexts expected for them: \<open>681edf34d206965e86b3e94f536e4246\<close> and
  \<open>595298c7c6fd271f0a8c988149b7ef62\<close>.\<close>

definition vector1_ciphertext :: bytes where
  "vector1_ciphertext = [0x68, 0x1e, 0xdf, 0x34, 0xd2, 0x06, 0x96, 0x5e,
                         0x86, 0xb3, 0xe9, 0x4f, 0x53, 0x6e, 0x42, 0x46]"

definition vector2_ciphertext :: bytes where
  "vector2_ciphertext = [0x59, 0x52, 0x98, 0xc7, 0xc6, 0xfd, 0x27, 0x1f,
                         0x0a, 0x8c, 0x98, 0x81, 0x49, 0xb7, 0xef, 0x62]"

text \<open>The round keys that \<open>SM4.__init__\<close> computes for the two keys (lemmas
  \<open>vector1_key_schedule\<close> and \<open>vector2_key_schedule\<close>).\<close>

definition vector1_round_keys :: "int list" where
  "vector1_round_keys =
    [1698436269, 2083797054, 903967929, 287031643, 724978317, 447111794, 3125540220,
     2921227619, 3958668357, 3095922360, 838222219, 1104734144, 544072568, 667866801,
     3928149251, 1979716148, 2987192704, 1251333159, 4227405293, 1206478670, 3003794997,
     3523148743, 2995021767, 3831649352, 4202672363, 1953139869, 2473935148, 2179088438,
     1512417205, 129519610, 738368751, 1591307416]"

definition vector2_round_keys :: "int list" where
  "vector2_round_keys =
    [1587415309, 3515881741, 684736245, 3372630074, 1650203593, 4251590989, 610972860,
     2535283314, 4048478674, 3754242534, 3591621293, 2071511605, 3273831171, 4186828484,
     1386977853, 1689268629, 1109504760, 1307445902, 1294853145, 3399434843, 2305468356,
     571239173, 3820989405, 3764387953, 2894314085, 3429952396, 3242233638, 4267332168,
     1808632002, 1768440098, 1209718958, 495965557]"

text \<open>
  A cipher object and a session in the state that the constructors are written to leave
  behind for \<open>vector1_key\<close> and the nonce of twelve zero bytes: the round keys of the base
  class (lemma \<open>vector1_key_schedule\<close>), the tables of \<open>_precompute_tables\<close>, the counter
  \<open>nonce || 00000001\<close> and the encryption of the zero block as \<open>H\<close> (lemma
  \<open>example_H\<close>).
\<close>

definition example_cipher :: sm4 where
  "example_cipher =
     precompute_tables
       \<lparr>cls = SM4Optimized, key = vector1_key, round_keys = Some vector1_round_keys,
        T_table = None\<rparr>"

definition example_session :: gcm where
  "example_session =
     \<lparr>sm4 = example_cipher, tag_length = 16, nonce = replicate 12 0,
      initial_counter = Some [0, 0, 0, 0, 0, 0, 0, 0, 0, 0, 0, 0, 0, 0, 0, 1],
      H = Some [112, 86, 152, 63, 239, 128, 29, 234, 100, 64, 242, 255, 18, 169, 195, 78]\<rparr>"

text \<open>The substitution table by rows of sixteen, for looking entries up in two short steps
  (lemma \<open>sbox_lookup\<close>).\<close>

definition Sbox_rows :: "int list list" where
  "Sbox_rows = [
    [0xd6, 0x90, 0xe9, 0xfe, 0xcc, 0xe1, 0x3d, 0xb7, 0x16, 0xb6, 0x14, 0xc2, 0x28, 0xfb, 0x2c, 0x05],
    [0x2b, 0x67, 0x9a, 0x76, 0x2a, 0xbe, 0x04, 0xc3, 0xaa, 0x44, 0x13, 0x26, 0x49, 0x86, 0x06, 0x99],
    [0x9c, 0x42, 0x50, 0xf4, 0x91, 0xef, 0x98, 0x7a, 0x33, 0x54, 0x0b, 0x43, 0xed, 0xcf, 0xac, 0x62],
    [0xe4, 0xb3, 0x1c, 0xa9, 0xc9, 0x08, 0xe8, 0x95, 0x80, 0xdf, 0x94, 0xfa, 0x75, 0x8f, 0x3f, 0xa6],
    [0x47, 0x07, 0xa7, 0xfc, 0xf3, 0x73, 0x17, 0xba, 0x83, 0x59, 0x3c, 0x19, 0xe6, 0x85, 0x4f, 0xa8],
    [0x68, 0x6b, 0x81, 0xb2, 0x71, 0x64, 0xda, 0x8b, 0xf8, 0xeb, 0x0f, 0x4b, 0x70, 0x56, 0x9d, 0x35],
    [0x1e, 0x24, 0x0e, 0x5e, 0x63, 0x58, 0xd1, 0xa2, 0x25, 0x22, 0x7c, 0x3b, 0x01, 0x0d, 0x2d, 0x02],
    [0x1f, 0x55, 0x82, 0xd5, 0x40, 0xc7, 0x31, 0xa1, 0x74, 0x03, 0xf7, 0xf2, 0xce, 0xf9, 0x61, 0x15],
    [0xa0, 0x38, 0xe0, 0x41, 0x7f, 0x00, 0x2e, 0xee, 0xb8, 0x56, 0x0c, 0xbc, 0xd2, 0x79, 0x20, 0x9f],
    [0xb4, 0x5b, 0x6a, 0xcb, 0xbe, 0x39, 0x4a, 0x4c, 0x58, 0x27, 0x31, 0xd6, 0x1e, 0x14, 0x6c, 0x48],
    [0x97, 0xc2, 0x0a, 0xf1, 0x6e, 0x3d, 0x29, 0x2b, 0x07, 0x5b, 0xbb, 0x43, 0x96, 0x42, 0x06, 0x8f],
    [0x0c, 0x7d, 0x37, 0x21, 0x12, 0x7a, 0x60, 0x59, 0xcb, 0xcc, 0x83, 0x3e, 0x0b, 0x49, 0x03, 0xf0],
    [0x13, 0x8a, 0x9d, 0x81, 0x5f, 0xdb, 0xa4, 0x45, 0x9b, 0x73, 0x28, 0x20, 0x95, 0x66, 0x94, 0x3b],
    [0x09, 0xe3, 0x6f, 0x57, 0x44, 0x5c, 0x36, 0x02, 0xe0, 0x01, 0x11, 0x72, 0x90, 0xd8, 0x84, 0x10],
    [0x87, 0xec, 0x1f, 0x88, 0x05, 0x5a, 0x65, 0x89, 0x51, 0x92, 0x1c, 0x75, 0xca, 0x1d, 0x04, 0x2f],
    [0x2a, 0x50, 0x86, 0x9a, 0x1b, 0x7b, 0x46, 0x47, 0x98, 0xa3, 0x6d, 0x23, 0x0f, 0x5e, 0x7e, 0xc1]
  ]"

text \<open>Two notions for stating the round trip of the block cipher: the reversal of the
  four words that \<open>encrypt_block\<close> and \<open>decrypt_block\<close> apply before packing, and the
  four words being in the range of 32 bits.\<close>

definition reverse_words :: "int \<times> int \<times> int \<times> int \<Rightarrow> int \<times> int \<times> int \<times> int" where
  "reverse_words X = (case X of (x0, x1, x2, x3) \<Rightarrow> (x3, x2, x1, x0))"

definition words32 :: "int \<times> int \<times> int \<times> int \<Rightarrow> bool" where
  "words32 X = (case X of (x0, x1, x2, x3) \<Rightarrow>
     take_bit 32 x0 = x0 \<and> take_bit 32 x1 = x1 \<and> take_bit 32 x2 = x2 \<and> take_bit 32 x3 = x3)"

section \<open>Facts about the combinators\<close>

lemma bind_err_Inr: "bind_err (Inr v) f = f v"
  by (simp add: bind_err_def)

lemma bind_err_Inl: "bind_err (Inl e) f = Inl e"
  by (simp add: bind_err_def)

lemma bind_err_weak_cong: "m = m' \<Longrightarrow> bind_err m f = bind_err m' f"
  by simp

lemma bind_err_eq_Inr:
  "bind_err m f = Inr y \<longleftrightarrow> (\<exists>v. m = Inr v \<and> f v = Inr y)"
  by (cases m) (simp_all add: bind_err_def)

lemma upt_32:
  "[0..<32] = [0, 1, 2, 3, 4, 5, 6, 7, 8, 9, 10, 11, 12, 13, 14, 15, 16, 17, 18, 19, 20,
     21, 22, 23, 24, 25, 26, 27, 28, 29, 30, 31]"
  by (simp add: upt_rec)

lemma length_CK: "length CK = 32"
  by (simp add: CK_def)

section \<open>Looking up the substitution table\<close>

lemma Sbox_concat_rows: "Sbox = concat Sbox_rows"
  by (simp add: Sbox_def Sbox_rows_def)

lemma nth_concat_rows:
  "\<forall>r\<in>set rows. length r = 16 \<Longrightarrow> n < 16 * length rows \<Longrightarrow>
     concat rows ! n = rows ! (n div 16) ! (n mod 16)"
proof (induction rows arbitrary: n)
  case Nil
  then show ?case by simp
next
  case (Cons r rows)
  show ?case
  proof (cases "n < 16")
    case True
    with Cons.prems show ?thesis by (simp add: nth_append)
  next
    case False
    have "concat (r # rows) ! n = concat rows ! (n - 16)"
      using False Cons.prems by (simp add: nth_append)
    also have "\<dots> = rows ! ((n - 16) div 16) ! ((n - 16) mod 16)"
      using Cons.prems False by (intro Cons.IH) auto
    also have "\<dots> = (r # rows) ! (n div 16) ! (n mod 16)"
      using False by (simp add: le_div_geq le_mod_geq)
    finally show ?thesis .
  qed
qed

lemma sbox_lookup:
  "0 \<le> x \<Longrightarrow> x < 256 \<Longrightarrow> sbox x = Sbox_rows ! nat (x div 16) ! nat (x mod 16)"
proof -
  assume x: "0 \<le> x" "x < 256"
  have "\<forall>r\<in>set Sbox_rows. length r = 16"
    by (simp add: Sbox_rows_def)
  moreover have "nat x < 16 * length Sbox_rows"
    using x by (simp add: Sbox_rows_def)
  ultimately have "concat Sbox_rows ! nat x = Sbox_rows ! (nat x div 16) ! (nat x mod 16)"
    by (rule nth_concat_rows)
  moreover have "nat x div 16 = nat (x div 16)" "nat x mod 16 = nat (x mod 16)"
    using x by (simp_all add: nat_div_distrib nat_mod_distrib)
  ultimately show ?thesis
    by (simp add: sbox_def Sbox_concat_rows)
qed

section \<open>The table-driven transform\<close>

text \<open>
  Words are the integers \<open>x\<close> with \<open>take_bit 32 x = x\<close>. On them \<open>_rotate_left\<close> is
  the rotation of 32 bits, so the linear transform distributes over XOR; the four shifted
  substituted bytes do not overlap, so their OR is their XOR. Hence, once
  \<open>_precompute_tables\<close> has run, the override of \<open>_t_function\<close> returns what the
  method of the base class returns, for every integer argument.
\<close>

lemma and_FFFFFFFF: "x AND 0xFFFFFFFF = take_bit 32 (x :: int)"
  by (simp add: take_bit_eq_mask mask_eq_exp_minus_1)

lemma and_FF: "x AND 0xFF = take_bit 8 (x :: int)"
  by (simp add: take_bit_eq_mask mask_eq_exp_minus_1)

lemma bit_word32: "take_bit 32 (x :: int) = x \<Longrightarrow> bit x k \<Longrightarrow> k < 32"
  by (metis bit_take_bit_iff)

lemma bit_rotate_left:
  assumes "take_bit 32 x = x" "n \<le> 32"
  shows "bit (rotate_left x n) k \<longleftrightarrow>
           k < 32 \<and> (if n \<le> k then bit x (k - n) else bit x (k + 32 - n))"
  using assms bit_word32 [OF assms(1), of "32 - n + k"]
  by (auto simp add: rotate_left_def and_FFFFFFFF bit_simps ac_simps dest: bit_word32)

lemma word32_rotate_left: "take_bit 32 (rotate_left x n) = rotate_left x n"
  by (auto simp add: rotate_left_def and_FFFFFFFF bit_eq_iff bit_simps)

lemma rotate_left_xor:
  assumes "take_bit 32 a = a" "take_bit 32 b = b" "n \<le> 32"
  shows "rotate_left (a XOR b) n = rotate_left a n XOR rotate_left b n"
proof -
  have ab: "take_bit 32 (a XOR b) = a XOR b"
    using assms(1,2) by simp
  show ?thesis
    by (rule bit_eqI) (auto simp add: bit_rotate_left ab assms bit_xor_iff)
qed

lemma word32_linear_L: "take_bit 32 x = x \<Longrightarrow> take_bit 32 (linear_L x) = linear_L x"
  by (simp add: linear_L_def word32_rotate_left)

lemma linear_L_xor:
  assumes "take_bit 32 a = a" "take_bit 32 b = b"
  shows "linear_L (a XOR b) = linear_L a XOR linear_L b"
  by (simp add: linear_L_def rotate_left_xor assms) (simp add: xor.assoc xor.left_commute xor.commute)

lemma Sbox_bytes: "\<forall>v\<in>set Sbox. take_bit 8 v = v"
  by (simp add: Sbox_def)

lemma length_Sbox: "length Sbox = 256"
  by (simp add: Sbox_def)

lemma sbox_byte: "0 \<le> x \<Longrightarrow> x < 256 \<Longrightarrow> take_bit 8 (sbox x) = sbox x"
  using Sbox_bytes nth_mem [of "nat x" Sbox] by (simp add: sbox_def length_Sbox)

lemma byte_index: "0 \<le> take_bit 8 (x :: int) \<and> take_bit 8 x < 256"
  using take_bit_int_less_exp [of 8 x] by simp

lemma table_step_eq:
  assumes "length T = 4"
  shows "table_step i T =
           map (\<lambda>p. (T ! p)[i := linear_L (push_bit (24 - 8 * p) (sbox (int i)))]) [0..<4]"
proof -
  obtain a b c d where T: "T = [a, b, c, d]"
    using assms by (auto simp add: length_Suc_conv numeral_eq_Suc)
  show ?thesis
    by (simp add: T table_step_def Let_def linear_L_def upt_rec)
qed

lemma fold_table_step:
  "n \<le> 256 \<Longrightarrow>
     fold table_step [0..<n] (replicate 4 (replicate 256 0)) =
       map (\<lambda>p. map (\<lambda>i. if i < n then linear_L (push_bit (24 - 8 * p) (sbox (int i))) else 0)
              [0..<256]) [0..<4]"
proof (induction n)
  case 0
  show ?case
    by (simp only: not_less_zero if_False map_replicate_const length_upt diff_zero upt_0 fold_simps id_apply)
next
  case (Suc n)
  then have n: "n < 256" by simp
  let ?E = "\<lambda>p i. linear_L (push_bit (24 - 8 * p) (sbox (int i)))"
  let ?row = "\<lambda>m p. map (\<lambda>i. if i < m then ?E p i else 0) [0..<256]"
  have row: "(?row n p)[n := ?E p n] = ?row (Suc n) p" for p
    using n by (intro nth_equalityI) (auto simp add: nth_list_update less_Suc_eq simp del: upt_rec_numeral)
  have "fold table_step [0..<Suc n] (replicate 4 (replicate 256 0)) =
          table_step n (map (?row n) [0..<4])"
    using Suc by (simp del: upt_rec_numeral)
  also have "\<dots> = map (\<lambda>p. (map (?row n) [0..<4] ! p)[n := ?E p n]) [0..<4]"
    by (rule table_step_eq) (simp del: upt_rec_numeral)
  also have "\<dots> = map (\<lambda>p. (?row n p)[n := ?E p n]) [0..<4]"
  proof (rule map_cong)
    fix p assume "p \<in> set [0..<4]"
    then have p: "p < 4" by simp
    have "[0..<4] ! p = p"
      using p nth_upt [of 0 p 4] by simp
    then show "(map (?row n) [0..<4] ! p)[n := ?E p n] = (?row n p)[n := ?E p n]"
      using p by (simp only: nth_map length_upt diff_zero)
  qed (rule refl)
  also have "\<dots> = map (?row (Suc n)) [0..<4]"
    by (simp only: row)
  finally show ?case .
qed

lemma T_table_precompute:
  "T_table (precompute_tables s) =
     Some (map (\<lambda>p. map (\<lambda>i. linear_L (push_bit (24 - 8 * p) (sbox (int i)))) [0..<256]) [0..<4])"
proof -
  have "(map (\<lambda>i. if i < 256 then f i else 0) [0..<256] :: int list) = map f [0..<256]" for f
    by (rule map_cong) (simp_all del: upt_rec_numeral)
  then show ?thesis
    by (simp add: precompute_tables_def fold_table_step del: upt_rec_numeral)
qed

lemma bit_byte: "take_bit 8 (v :: int) = v \<Longrightarrow> bit v k \<Longrightarrow> k < 8"
  by (metis bit_take_bit_iff)

lemma word32_push_take_byte:
  "n \<le> 24 \<Longrightarrow> take_bit 32 (push_bit n (take_bit 8 (v :: int))) = push_bit n (take_bit 8 v)"
  by (rule bit_eqI) (auto simp add: bit_simps)

lemma word32_push_byte:
  assumes "take_bit 8 (v :: int) = v" "n \<le> 24"
  shows "take_bit 32 (push_bit n v) = push_bit n v"
  using word32_push_take_byte [OF assms(2), of v] by (simp only: assms(1))

lemma or_take_bytes_eq_xor:
  "push_bit 24 (take_bit 8 (a :: int)) OR push_bit 16 (take_bit 8 b) OR push_bit 8 (take_bit 8 c)
     OR take_bit 8 d =
   push_bit 24 (take_bit 8 a) XOR push_bit 16 (take_bit 8 b) XOR push_bit 8 (take_bit 8 c)
     XOR take_bit 8 d"
  by (rule bit_eqI) (auto simp add: bit_simps)

lemma or_bytes_eq_xor:
  assumes "take_bit 8 (a :: int) = a" "take_bit 8 b = b" "take_bit 8 c = c" "take_bit 8 d = d"
  shows "push_bit 24 a OR push_bit 16 b OR push_bit 8 c OR d =
         push_bit 24 a XOR push_bit 16 b XOR push_bit 8 c XOR d"
  using or_take_bytes_eq_xor [of a b c d] by (simp only: assms)

lemma linear_L_bytes:
  assumes "take_bit 8 (a :: int) = a" "take_bit 8 b = b" "take_bit 8 c = c" "take_bit 8 d = d"
  shows "linear_L (push_bit 24 a OR push_bit 16 b OR push_bit 8 c OR d) =
         linear_L (push_bit 24 a) XOR linear_L (push_bit 16 b) XOR linear_L (push_bit 8 c)
           XOR linear_L d"
proof -
  have w: "take_bit 32 (push_bit 24 a) = push_bit 24 a"
    "take_bit 32 (push_bit 16 b) = push_bit 16 b"
    "take_bit 32 (push_bit 8 c) = push_bit 8 c"
    "take_bit 32 d = d"
    using word32_push_byte [OF assms(1), of 24] word32_push_byte [OF assms(2), of 16]
      word32_push_byte [OF assms(3), of 8] word32_push_byte [OF assms(4), of 0]
    by simp_all
  show ?thesis
    by (simp add: or_bytes_eq_xor assms linear_L_xor w)
qed

lemma table_lookup:
  assumes "p < 4"
  shows "bind_err (nth_err (the (T_table (precompute_tables s))) p)
             (\<lambda>t. nth_err t (nat (take_bit 8 x))) =
           Inr (linear_L (push_bit (24 - 8 * p) (sbox (take_bit 8 x))))"
proof -
  have x: "nat (take_bit 8 x) < 256"
    using byte_index [of x] by simp
  have "[0..<4] ! p = p"
    using assms nth_upt [of 0 p 4] by simp
  moreover have "[0..<256] ! nat (take_bit 8 x) = nat (take_bit 8 x)"
    using x nth_upt [of 0 "nat (take_bit 8 x)" 256] by simp
  ultimately show ?thesis
    using assms x
    by (simp add: T_table_precompute nth_err_def bind_err_Inr del: upt_rec_numeral)
qed

lemma t_table_equivalence:
  "SM4Optimized_t_function (precompute_tables s) x = Inr (SM4_t_function x)"
proof -
  have T: "attr (T_table (precompute_tables s)) = Inr (the (T_table (precompute_tables s)))"
    by (simp add: T_table_precompute attr_def)
  have b: "take_bit 8 (sbox (take_bit 8 y)) = sbox (take_bit 8 y)" for y
    using byte_index [of y] by (simp add: sbox_byte)
  show ?thesis
    unfolding SM4Optimized_t_function_def SM4_t_function_def Let_def and_FF T bind_err_Inr
    using table_lookup [of 0 s] table_lookup [of 1 s] table_lookup [of 2 s] table_lookup [of 3 s]
    by (simp add: bind_err_Inr linear_L_bytes b)
qed

section \<open>Construction of the accelerated cipher and of a session\<close>

text \<open>
  \<open>SM4Optimized.__init__\<close> runs \<open>SM4.__init__\<close> before \<open>_precompute_tables\<close>. The base
  constructor computes the round keys through \<open>self._t_function\<close>, which on this object is
  the table-driven override, and the tables do not exist yet.
\<close>

lemma optimized_t_function_without_tables:
  "T_table s = None \<Longrightarrow> SM4Optimized_t_function s x = Inl AttributeError"
  by (simp add: SM4Optimized_t_function_def attr_def bind_err_Inl)

lemma key_rounds_optimized_fails:
  assumes "cls s = SM4Optimized" "T_table s = None" "i < 32"
  shows "key_rounds s (i # is) K rks = Inl AttributeError"
proof -
  obtain k0 k1 k2 k3 where K: "K = (k0, k1, k2, k3)"
    by (cases K) auto
  have "nth_err CK i = Inr (CK ! i)"
    using assms(3) by (simp add: nth_err_def length_CK)
  moreover have "t_function s (k1 XOR k2 XOR k3 XOR CK ! i) = Inl AttributeError"
    using assms(1,2) by (simp add: t_function_def optimized_t_function_without_tables)
  ultimately show ?thesis
    by (simp add: K bind_err_Inr bind_err_Inl)
qed

lemma SM4Optimized_init_fails:
  "SM4Optimized_init k = Inl (if length k \<noteq> 16 then InvalidKeyLength else AttributeError)"
proof (cases "length k = 16")
  case False
  then show ?thesis
    by (simp add: SM4Optimized_init_def SM4_init_def bind_err_Inl)
next
  case True
  have "generate_round_keys \<lparr>cls = SM4Optimized, key = k, round_keys = None, T_table = None\<rparr>
          = Inl AttributeError"
    unfolding generate_round_keys_def upt_32
    by (rule key_rounds_optimized_fails) simp_all
  with True show ?thesis
    by (simp add: SM4Optimized_init_def SM4_init_def bind_err_Inl)
qed

lemma SM4GCM_init_fails:
  "SM4GCM_init k n tlen = Inl (if length k \<noteq> 16 then InvalidKeyLength else AttributeError)"
  by (simp add: SM4GCM_init_def SM4Optimized_init_fails bind_err_Inl)

text \<open>
  \<open>SM4GCM.__init__\<close> calls \<open>_generate_initial_counter\<close> before it assigns \<open>self.H\<close>;
  for a nonce that is not 12 bytes long that method reads \<open>self.H\<close>.
\<close>

lemma SM4GCM_setup_other_nonce:
  "length n \<noteq> 12 \<Longrightarrow> SM4GCM_setup c n tlen = Inl AttributeError"
  by (simp add: SM4GCM_setup_def generate_initial_counter_def attr_def bind_err_Inl)

text \<open>
  C4, at the failing input \<open>key = vector1_key\<close>, \<open>nonce\<close> twelve zero bytes: the session
  that is to encrypt and decrypt cannot be constructed; \<open>SM4GCM(key, nonce)\<close> raises
  \<open>AttributeError\<close> inside \<open>SM4Optimized(key)\<close>.
\<close>

theorem gcm_session_construction_raises:
  "SM4GCM_init vector1_key (replicate 12 0) 16 = Inl AttributeError"
  by (simp add: SM4GCM_init_fails vector1_key_def)

text \<open>
  C7, at the failing input \<open>key = vector1_key\<close>, \<open>nonce\<close> eight zero bytes: construction
  raises \<open>AttributeError\<close>; and whatever cipher object \<open>c\<close> the first line of the
  constructor had produced, the rest of the constructor raises \<open>AttributeError\<close> as well,
  because the hash subkey is read before it is assigned.
\<close>

theorem gcm_other_nonce_construction_raises:
  "SM4GCM_init vector1_key (replicate 8 0) 16 = Inl AttributeError \<and>
   SM4GCM_setup c (replicate 8 0) 16 = Inl AttributeError"
  by (simp add: SM4GCM_init_fails SM4GCM_setup_other_nonce vector1_key_def)

section \<open>The counter\<close>

lemma from_bytes_4:
  "from_bytes_big [a, b, c, d] = ((uint a * 256 + uint b) * 256 + uint c) * 256 + uint d"
  by (simp add: from_bytes_big_def)

text \<open>
  C6, at the failing input \<open>counter\<close> = twelve zero bytes followed by \<open>ff ff ff ff\<close>:
  \<open>_increment_counter\<close> raises \<open>OverflowError\<close> (the incremented value \<open>2^32\<close> does not
  fit the four bytes asked of \<open>to_bytes\<close>); it does not wrap to zero.
\<close>

theorem increment_counter_overflow:
  "increment_counter (replicate 12 0 @ [0xFF, 0xFF, 0xFF, 0xFF]) = Inl OverflowError"
  by (simp add: increment_counter_def from_bytes_4 to_bytes_big_def bind_err_Inl)

section \<open>Tag length\<close>

text \<open>
  C8: a call of \<open>decrypt\<close> with a tag whose length is not the session's \<open>tag_length\<close>
  raises the tag-length error, and has made no block-cipher call and no tag comparison
  when it does.
\<close>

theorem decrypt_rejects_tag_length:
  "length tag \<noteq> tag_length g \<Longrightarrow>
     decrypt_t g ciphertext tag auth_data = ([], Inl InvalidTagLength)"
  by (simp add: decrypt_t_def pure_t_def)

theorem decrypt_rejects_tag_length_witness:
  "length [1, 2, 3 :: 8 word] \<noteq> tag_length example_session \<and>
   decrypt_t example_session [0x2a] [1, 2, 3] [] = ([], Inl InvalidTagLength)"
  using decrypt_rejects_tag_length [of "[1, 2, 3]" example_session "[0x2a]" "[]"]
  by (simp add: example_session_def)

section \<open>The transform of the key schedule\<close>

text \<open>
  C9: one step of the key schedule with register \<open>(a, b, c, d)\<close> and constant \<open>CK[i]\<close> is
  one round of \<open>encrypt_block\<close> on the same four words with \<open>CK[i]\<close> as round key; the
  round key it appends is the new word of that round. Both go through the same
  \<open>_t_function\<close>, so the linear transform of the key schedule is the one of the round
  function at every word.
\<close>

theorem key_schedule_uses_round_transform:
  "key_rounds s [i] (a, b, c, d) [] =
     bind_err (rounds s CK [i] (a, b, c, d)) (\<lambda>X. Inr [snd (snd (snd X))])"
  by (cases "nth_err CK i"; cases "t_function s (b XOR c XOR d XOR CK ! i)")
     (auto simp add: bind_err_def nth_err_def split: if_splits)

section \<open>Evaluating the cipher on the test vectors\<close>

lemmas cipher_eval =
  CK_def FK_def bind_err_Inr bind_err_Inl nth_err_def attr_def t_function_def Let_def
  SM4_t_function_def sbox_lookup Sbox_rows_def linear_L_def rotate_left_def upt_32
  word_at_def words_of_def reverse_pack_def bytes_of_int128_def

lemma vector1_key_schedule:
  "generate_round_keys \<lparr>cls = SM4Basic, key = vector1_key, round_keys = None, T_table = None\<rparr>
     = Inr vector1_round_keys"
  by (simp add: vector1_round_keys_def generate_round_keys_def vector1_key_def cipher_eval
        cong: bind_err_weak_cong let_weak_cong)

lemma vector2_key_schedule:
  "generate_round_keys \<lparr>cls = SM4Basic, key = vector2_key, round_keys = None, T_table = None\<rparr>
     = Inr vector2_round_keys"
  by (simp add: vector2_round_keys_def generate_round_keys_def vector2_key_def cipher_eval
        cong: bind_err_weak_cong let_weak_cong)

lemma vector1_encrypt_block:
  "encrypt_block
     \<lparr>cls = SM4Basic, key = vector1_key, round_keys = Some vector1_round_keys, T_table = None\<rparr>
     vector1_plaintext
   = Inr [0x3b, 0xf9, 0xe2, 0xbf, 0x4b, 0x0c, 0x2e, 0x87,
          0xbd, 0xc2, 0x3a, 0xd0, 0x0c, 0x92, 0xce, 0x95]"
  by (simp add: vector1_round_keys_def encrypt_block_def vector1_plaintext_def cipher_eval
        cong: bind_err_weak_cong let_weak_cong)

lemma vector2_encrypt_block:
  "encrypt_block
     \<lparr>cls = SM4Basic, key = vector2_key, round_keys = Some vector2_round_keys, T_table = None\<rparr>
     vector2_plaintext
   = Inr [0xac, 0x20, 0x18, 0x19, 0x38, 0xa7, 0xe0, 0xb5,
          0x45, 0x19, 0xb1, 0x98, 0xcb, 0x1f, 0x05, 0x38]"
  by (simp add: vector2_round_keys_def encrypt_block_def vector2_plaintext_def cipher_eval
        cong: bind_err_weak_cong let_weak_cong)

lemma SM4_init_vector1:
  "SM4_init SM4Basic vector1_key =
     Inr \<lparr>cls = SM4Basic, key = vector1_key, round_keys = Some vector1_round_keys,
          T_table = None\<rparr>"
  by (simp add: SM4_init_def vector1_key_schedule bind_err_Inr) (simp add: vector1_key_def)

lemma SM4_init_vector2:
  "SM4_init SM4Basic vector2_key =
     Inr \<lparr>cls = SM4Basic, key = vector2_key, round_keys = Some vector2_round_keys,
          T_table = None\<rparr>"
  by (simp add: SM4_init_def vector2_key_schedule bind_err_Inr) (simp add: vector2_key_def)

text \<open>
  C2, at the failing inputs, the two vectors themselves: the cipher of the base class
  returns \<open>3bf9e2bf4b0c2e87bdc23ad00c92ce95\<close> for the first and
  \<open>ac20181938a7e0b54519b198cb1f0538\<close> for the second, neither of them the ciphertext
  expected; the accelerated cipher cannot be constructed for either key.
\<close>

theorem known_answer_vectors_not_reproduced:
  "bind_err (SM4_init SM4Basic vector1_key) (\<lambda>s. encrypt_block s vector1_plaintext) =
     Inr [0x3b, 0xf9, 0xe2, 0xbf, 0x4b, 0x0c, 0x2e, 0x87,
          0xbd, 0xc2, 0x3a, 0xd0, 0x0c, 0x92, 0xce, 0x95] \<and>
   bind_err (SM4_init SM4Basic vector2_key) (\<lambda>s. encrypt_block s vector2_plaintext) =
     Inr [0xac, 0x20, 0x18, 0x19, 0x38, 0xa7, 0xe0, 0xb5,
          0x45, 0x19, 0xb1, 0x98, 0xcb, 0x1f, 0x05, 0x38] \<and>
   bind_err (SM4Optimized_init vector1_key) (\<lambda>s. encrypt_block s vector1_plaintext) =
     Inl AttributeError \<and>
   bind_err (SM4Optimized_init vector2_key) (\<lambda>s. encrypt_block s vector2_plaintext) =
     Inl AttributeError \<and>
   vector1_ciphertext \<noteq> [0x3b, 0xf9, 0xe2, 0xbf, 0x4b, 0x0c, 0x2e, 0x87,
          0xbd, 0xc2, 0x3a, 0xd0, 0x0c, 0x92, 0xce, 0x95] \<and>
   vector2_ciphertext \<noteq> [0xac, 0x20, 0x18, 0x19, 0x38, 0xa7, 0xe0, 0xb5,
          0x45, 0x19, 0xb1, 0x98, 0xcb, 0x1f, 0x05, 0x38]"
proof -
  have "length vector1_key = 16" "length vector2_key = 16"
    by (simp_all add: vector1_key_def vector2_key_def)
  then show ?thesis
    by (simp add: SM4_init_vector1 SM4_init_vector2 vector1_encrypt_block vector2_encrypt_block
          SM4Optimized_init_fails bind_err_Inr bind_err_Inl vector1_ciphertext_def
          vector2_ciphertext_def)
qed

text \<open>
  C1, at the failing input \<open>key = vector1_key\<close>, \<open>block = vector1_plaintext\<close>: the base
  class encrypts the block, while \<open>SM4Optimized(key)\<close> raises \<open>AttributeError\<close>, so there
  is no accelerated encryption to compare. (With the tables in place the two
  \<open>_t_function\<close>s agree, lemma \<open>t_table_equivalence\<close>.)
\<close>

theorem accelerated_cipher_construction_raises:
  "bind_err (SM4_init SM4Basic vector1_key) (\<lambda>s. encrypt_block s vector1_plaintext) =
     Inr [0x3b, 0xf9, 0xe2, 0xbf, 0x4b, 0x0c, 0x2e, 0x87,
          0xbd, 0xc2, 0x3a, 0xd0, 0x0c, 0x92, 0xce, 0x95] \<and>
   bind_err (SM4Optimized_init vector1_key) (\<lambda>s. encrypt_block s vector1_plaintext) =
     Inl AttributeError"
proof -
  have "length vector1_key = 16"
    by (simp add: vector1_key_def)
  then show ?thesis
    by (simp add: SM4_init_vector1 vector1_encrypt_block SM4Optimized_init_fails
          bind_err_Inr bind_err_Inl)
qed

section \<open>Decryption inverts encryption\<close>

lemma uint_byte_of_int: "uint (word_of_int z :: 8 word) = take_bit 8 z"
  by (simp add: uint_word_of_int_eq)

lemma four_bytes_of_word:
  "push_bit 24 (take_bit 8 (drop_bit (n + 24) c)) OR push_bit 16 (take_bit 8 (drop_bit (n + 16) c))
     OR push_bit 8 (take_bit 8 (drop_bit (n + 8) c)) OR take_bit 8 (drop_bit n c)
   = take_bit 32 (drop_bit n (c :: int))"
proof (rule bit_eqI)
  fix k :: nat
  consider "k < 8" | "8 \<le> k" "k < 16" | "16 \<le> k" "k < 24" | "24 \<le> k" "k < 32" | "32 \<le> k"
    by linarith
  then show "bit (push_bit 24 (take_bit 8 (drop_bit (n + 24) c))
        OR push_bit 16 (take_bit 8 (drop_bit (n + 16) c))
        OR push_bit 8 (take_bit 8 (drop_bit (n + 8) c)) OR take_bit 8 (drop_bit n c)) k
      = bit (take_bit 32 (drop_bit n c)) k"
    by cases (auto simp add: bit_simps ac_simps)
qed

lemma word_of_packed:
  fixes a b c d :: int
  defines "C \<equiv> push_bit 96 (take_bit 32 a) OR push_bit 64 (take_bit 32 b)
                 OR push_bit 32 (take_bit 32 c) OR take_bit 32 d"
  shows "take_bit 32 (drop_bit 96 C) = take_bit 32 a"
    and "take_bit 32 (drop_bit 64 C) = take_bit 32 b"
    and "take_bit 32 (drop_bit 32 C) = take_bit 32 c"
    and "take_bit 32 (drop_bit 0 C) = take_bit 32 d"
  unfolding C_def by (rule bit_eqI; auto simp add: bit_simps)+

lemma byte_of_packed:
  fixes a b c d :: int
  defines "C \<equiv> push_bit 96 (take_bit 32 a) OR push_bit 64 (take_bit 32 b)
                 OR push_bit 32 (take_bit 32 c) OR take_bit 32 d"
  assumes "m \<le> 24"
  shows "take_bit 8 (drop_bit (96 + m) C) = take_bit 8 (drop_bit m (take_bit 32 a))"
    and "take_bit 8 (drop_bit (64 + m) C) = take_bit 8 (drop_bit m (take_bit 32 b))"
    and "take_bit 8 (drop_bit (32 + m) C) = take_bit 8 (drop_bit m (take_bit 32 c))"
    and "take_bit 8 (drop_bit m C) = take_bit 8 (drop_bit m (take_bit 32 d))"
  using assms(2) unfolding C_def by (rule_tac bit_eqI; auto simp add: bit_simps ac_simps)+

lemma bytes_of_word:
  fixes p q r t :: "8 word"
  defines "w \<equiv> push_bit 24 (uint p) OR push_bit 16 (uint q) OR push_bit 8 (uint r) OR uint t"
  shows "word_of_int (take_bit 8 (drop_bit 24 w)) = p"
    and "word_of_int (take_bit 8 (drop_bit 16 w)) = q"
    and "word_of_int (take_bit 8 (drop_bit 8 w)) = r"
    and "word_of_int (take_bit 8 (drop_bit 0 w)) = t"
    and "take_bit 32 w = w"
  unfolding w_def
  by (rule bit_eqI; auto simp add: bit_simps bit_word_of_int_iff bit_uint_iff dest: bit_imp_le_length)+

lemma t_function_basic: "cls s = SM4Basic \<Longrightarrow> t_function s x = Inr (SM4_t_function x)"
  by (simp add: t_function_def)

lemma word32_SM4_t_function: "take_bit 32 (SM4_t_function x) = SM4_t_function x"
proof -
  have b: "take_bit 8 (sbox (take_bit 8 y)) = sbox (take_bit 8 y)" for y
    using byte_index [of y] by (simp add: sbox_byte)
  have "take_bit 32 (push_bit n (sbox (take_bit 8 y))) = push_bit n (sbox (take_bit 8 y))"
    if "n \<le> 24" for n y
    using word32_push_byte [OF b that] .
  from this [of 24] this [of 16] this [of 8] this [of 0] show ?thesis
    unfolding SM4_t_function_def Let_def and_FF
    by (intro word32_linear_L) (simp add: take_bit_or)
qed

lemma rounds_append:
  "rounds s rk (is @ js) X = bind_err (rounds s rk is X) (rounds s rk js)"
proof (induction "is" arbitrary: X)
  case Nil
  show ?case by (simp add: bind_err_Inr)
next
  case (Cons i "is")
  obtain x0 x1 x2 x3 where X: "X = (x0, x1, x2, x3)"
    by (cases X) auto
  show ?case
    by (cases "nth_err rk i"; cases "t_function s (x1 XOR x2 XOR x3 XOR rk ! i)")
       (auto simp add: X Cons.IH bind_err_def nth_err_def split: if_splits)
qed

lemma one_round_basic:
  assumes "cls s = SM4Basic" "i < length rk"
  shows "rounds s rk (i # is) (x0, x1, x2, x3) =
           rounds s rk is (x1, x2, x3, x0 XOR SM4_t_function (x1 XOR x2 XOR x3 XOR rk ! i))"
  using assms by (simp add: nth_err_def t_function_basic bind_err_Inr)

lemma rounds_basic_total:
  assumes "cls s = SM4Basic" "\<forall>i\<in>set idx. i < length rk"
  shows "\<exists>Y. rounds s rk idx X = Inr Y"
  using assms(2)
proof (induction idx arbitrary: X)
  case Nil
  show ?case by (rule exI [of _ X]) simp
next
  case (Cons i idx)
  obtain x0 x1 x2 x3 where X: "X = (x0, x1, x2, x3)"
    by (cases X) auto
  from Cons.prems have "i < length rk" "\<forall>i\<in>set idx. i < length rk"
    by simp_all
  then show ?case
    unfolding X one_round_basic [OF assms(1) \<open>i < length rk\<close>] by (intro Cons.IH)
qed

lemma rounds_basic_words32:
  assumes "cls s = SM4Basic" "\<forall>i\<in>set idx. i < length rk" "words32 X"
    "rounds s rk idx X = Inr Y"
  shows "words32 Y"
  using assms(2-)
proof (induction idx arbitrary: X)
  case Nil
  then show ?case by simp
next
  case (Cons i idx)
  obtain x0 x1 x2 x3 where X: "X = (x0, x1, x2, x3)"
    by (cases X) auto
  from Cons.prems(1) have i: "i < length rk" and idx: "\<forall>i\<in>set idx. i < length rk"
    by simp_all
  let ?X' = "(x1, x2, x3, x0 XOR SM4_t_function (x1 XOR x2 XOR x3 XOR rk ! i))"
  have "words32 ?X'"
    using Cons.prems(2) by (simp add: X words32_def word32_SM4_t_function)
  moreover have "rounds s rk idx ?X' = Inr Y"
    using Cons.prems(3) by (simp only: X one_round_basic [OF assms(1) i])
  ultimately show ?case
    using idx by (intro Cons.IH)
qed

lemma feistel_inverse:
  assumes "cls s = SM4Basic" "\<forall>i\<in>set idx. i < length rk" "rounds s rk idx X = Inr Y"
  shows "rounds s rk (rev idx) (reverse_words Y) = Inr (reverse_words X)"
  using assms(2-)
proof (induction idx arbitrary: X)
  case Nil
  then show ?case by simp
next
  case (Cons i idx)
  obtain x0 x1 x2 x3 where X: "X = (x0, x1, x2, x3)"
    by (cases X) auto
  from Cons.prems(1) have i: "i < length rk" and idx: "\<forall>i\<in>set idx. i < length rk"
    by simp_all
  define e where "e = x0 XOR SM4_t_function (x1 XOR x2 XOR x3 XOR rk ! i)"
  have "rounds s rk idx (x1, x2, x3, e) = Inr Y"
    using Cons.prems(2) by (simp only: X e_def one_round_basic [OF assms(1) i])
  with idx have "rounds s rk (rev idx) (reverse_words Y) = Inr (reverse_words (x1, x2, x3, e))"
    by (intro Cons.IH)
  then have "rounds s rk (rev (i # idx)) (reverse_words Y) = rounds s rk [i] (e, x3, x2, x1)"
    by (simp add: rounds_append bind_err_Inr reverse_words_def)
  also have "\<dots> = Inr (x3, x2, x1, e XOR SM4_t_function (x3 XOR x2 XOR x1 XOR rk ! i))"
    using i assms(1) by (simp add: nth_err_def t_function_basic bind_err_Inr)
  also have "x3 XOR x2 XOR x1 XOR rk ! i = x1 XOR x2 XOR x3 XOR rk ! i"
    by (simp add: xor.assoc xor.left_commute xor.commute)
  also have "e XOR SM4_t_function (x1 XOR x2 XOR x3 XOR rk ! i) = x0"
    by (simp add: e_def xor.assoc)
  finally show ?case
    by (simp add: X reverse_words_def)
qed

lemma list16:
  assumes "length (b :: 'a list) = 16"
  obtains b0 b1 b2 b3 b4 b5 b6 b7 b8 b9 b10 b11 b12 b13 b14 b15
  where "b = [b0, b1, b2, b3, b4, b5, b6, b7, b8, b9, b10, b11, b12, b13, b14, b15]"
proof -
  have "\<exists>b0 b1 b2 b3 b4 b5 b6 b7 b8 b9 b10 b11 b12 b13 b14 b15.
      b = [b0, b1, b2, b3, b4, b5, b6, b7, b8, b9, b10, b11, b12, b13, b14, b15]"
    using assms by (auto simp add: eval_nat_numeral length_Suc_conv)
  then show thesis
    using that by blast
qed

lemma length_reverse_pack: "length (reverse_pack X) = 16"
  by (cases X) (simp add: reverse_pack_def bytes_of_int128_def)

lemma word_at_bytes_of_int128:
  "word_at (bytes_of_int128 C) 0 = take_bit 32 (drop_bit 96 C)"
  "word_at (bytes_of_int128 C) 1 = take_bit 32 (drop_bit 64 C)"
  "word_at (bytes_of_int128 C) 2 = take_bit 32 (drop_bit 32 C)"
  "word_at (bytes_of_int128 C) 3 = take_bit 32 (drop_bit 0 C)"
  using four_bytes_of_word [of 96 C] four_bytes_of_word [of 64 C] four_bytes_of_word [of 32 C]
    four_bytes_of_word [of 0 C]
  by (simp_all add: word_at_def bytes_of_int128_def and_FF uint_byte_of_int)

lemma words_of_reverse_pack:
  assumes "words32 X"
  shows "words_of (reverse_pack X) = reverse_words X"
proof -
  obtain x0 x1 x2 x3 where X: "X = (x0, x1, x2, x3)"
    by (cases X) auto
  from assms have x: "take_bit 32 x0 = x0" "take_bit 32 x1 = x1" "take_bit 32 x2 = x2"
    "take_bit 32 x3 = x3"
    by (simp_all add: X words32_def)
  define C where "C = push_bit 96 x3 OR push_bit 64 x2 OR push_bit 32 x1 OR x0"
  have C: "C = push_bit 96 (take_bit 32 x3) OR push_bit 64 (take_bit 32 x2)
                 OR push_bit 32 (take_bit 32 x1) OR take_bit 32 x0"
    by (simp only: C_def x)
  have "take_bit 32 (drop_bit 96 C) = x3" "take_bit 32 (drop_bit 64 C) = x2"
    "take_bit 32 (drop_bit 32 C) = x1" "take_bit 32 (drop_bit 0 C) = x0"
    unfolding C using word_of_packed [of x3 x2 x1 x0] by (simp_all only: x)
  then show ?thesis
    unfolding X words_of_def reverse_pack_def reverse_words_def prod.case C_def [symmetric]
      word_at_bytes_of_int128
    by simp
qed

lemma words32_words_of: "words32 (words_of b)"
  unfolding words32_def words_of_def word_at_def prod.case
  by (intro conjI bytes_of_word(5))

lemma reverse_pack_words_of:
  assumes "length b = 16"
  shows "reverse_pack (reverse_words (words_of b)) = b"
proof -
  from assms obtain b0 b1 b2 b3 b4 b5 b6 b7 b8 b9 b10 b11 b12 b13 b14 b15
    where b: "b = [b0, b1, b2, b3, b4, b5, b6, b7, b8, b9, b10, b11, b12, b13, b14, b15]"
    by (rule list16)
  define w0 where "w0 = word_at b 0"
  define w1 where "w1 = word_at b 1"
  define w2 where "w2 = word_at b 2"
  define w3 where "w3 = word_at b 3"
  define C where "C = push_bit 96 w0 OR push_bit 64 w1 OR push_bit 32 w2 OR w3"
  have w: "take_bit 32 w0 = w0" "take_bit 32 w1 = w1" "take_bit 32 w2 = w2" "take_bit 32 w3 = w3"
    unfolding w0_def w1_def w2_def w3_def word_at_def by (rule bytes_of_word(5))+
  have C: "C = push_bit 96 (take_bit 32 w0) OR push_bit 64 (take_bit 32 w1)
                 OR push_bit 32 (take_bit 32 w2) OR take_bit 32 w3"
    by (simp only: C_def w)
  have bytes:
    "take_bit 8 (drop_bit (96 + m) C) = take_bit 8 (drop_bit m w0)"
    "take_bit 8 (drop_bit (64 + m) C) = take_bit 8 (drop_bit m w1)"
    "take_bit 8 (drop_bit (32 + m) C) = take_bit 8 (drop_bit m w2)"
    "take_bit 8 (drop_bit m C) = take_bit 8 (drop_bit m w3)" if "m \<le> 24" for m
    unfolding C using byte_of_packed [OF that, of w0 w1 w2 w3] by (simp_all only: w)
  have le: "(24::nat) \<le> 24" "(16::nat) \<le> 24" "(8::nat) \<le> 24" "(0::nat) \<le> 24"
    by simp_all
  have w0: "w0 = push_bit 24 (uint b0) OR push_bit 16 (uint b1) OR push_bit 8 (uint b2) OR uint b3"
    and w1: "w1 = push_bit 24 (uint b4) OR push_bit 16 (uint b5) OR push_bit 8 (uint b6) OR uint b7"
    and w2: "w2 = push_bit 24 (uint b8) OR push_bit 16 (uint b9) OR push_bit 8 (uint b10)
                    OR uint b11"
    and w3: "w3 = push_bit 24 (uint b12) OR push_bit 16 (uint b13) OR push_bit 8 (uint b14)
                    OR uint b15"
    by (simp_all add: w0_def w1_def w2_def w3_def word_at_def b)
  have by0: "word_of_int (take_bit 8 (drop_bit 24 w0)) = b0"
    "word_of_int (take_bit 8 (drop_bit 16 w0)) = b1"
    "word_of_int (take_bit 8 (drop_bit 8 w0)) = b2"
    "word_of_int (take_bit 8 (drop_bit 0 w0)) = b3"
    unfolding w0 by (rule bytes_of_word)+
  have by1: "word_of_int (take_bit 8 (drop_bit 24 w1)) = b4"
    "word_of_int (take_bit 8 (drop_bit 16 w1)) = b5"
    "word_of_int (take_bit 8 (drop_bit 8 w1)) = b6"
    "word_of_int (take_bit 8 (drop_bit 0 w1)) = b7"
    unfolding w1 by (rule bytes_of_word)+
  have by2: "word_of_int (take_bit 8 (drop_bit 24 w2)) = b8"
    "word_of_int (take_bit 8 (drop_bit 16 w2)) = b9"
    "word_of_int (take_bit 8 (drop_bit 8 w2)) = b10"
    "word_of_int (take_bit 8 (drop_bit 0 w2)) = b11"
    unfolding w2 by (rule bytes_of_word)+
  have by3: "word_of_int (take_bit 8 (drop_bit 24 w3)) = b12"
    "word_of_int (take_bit 8 (drop_bit 16 w3)) = b13"
    "word_of_int (take_bit 8 (drop_bit 8 w3)) = b14"
    "word_of_int (take_bit 8 (drop_bit 0 w3)) = b15"
    unfolding w3 by (rule bytes_of_word)+
  have "bytes_of_int128 C =
      [word_of_int (take_bit 8 (drop_bit (96 + 24) C)),
       word_of_int (take_bit 8 (drop_bit (96 + 16) C)),
       word_of_int (take_bit 8 (drop_bit (96 + 8) C)),
       word_of_int (take_bit 8 (drop_bit (96 + 0) C)),
       word_of_int (take_bit 8 (drop_bit (64 + 24) C)),
       word_of_int (take_bit 8 (drop_bit (64 + 16) C)),
       word_of_int (take_bit 8 (drop_bit (64 + 8) C)),
       word_of_int (take_bit 8 (drop_bit (64 + 0) C)),
       word_of_int (take_bit 8 (drop_bit (32 + 24) C)),
       word_of_int (take_bit 8 (drop_bit (32 + 16) C)),
       word_of_int (take_bit 8 (drop_bit (32 + 8) C)),
       word_of_int (take_bit 8 (drop_bit (32 + 0) C)),
       word_of_int (take_bit 8 (drop_bit 24 C)),
       word_of_int (take_bit 8 (drop_bit 16 C)),
       word_of_int (take_bit 8 (drop_bit 8 C)),
       word_of_int (take_bit 8 (drop_bit 0 C))]"
    by (simp add: bytes_of_int128_def and_FF)
  also have "\<dots> =
      [word_of_int (take_bit 8 (drop_bit 24 w0)),
       word_of_int (take_bit 8 (drop_bit 16 w0)),
       word_of_int (take_bit 8 (drop_bit 8 w0)),
       word_of_int (take_bit 8 (drop_bit 0 w0)),
       word_of_int (take_bit 8 (drop_bit 24 w1)),
       word_of_int (take_bit 8 (drop_bit 16 w1)),
       word_of_int (take_bit 8 (drop_bit 8 w1)),
       word_of_int (take_bit 8 (drop_bit 0 w1)),
       word_of_int (take_bit 8 (drop_bit 24 w2)),
       word_of_int (take_bit 8 (drop_bit 16 w2)),
       word_of_int (take_bit 8 (drop_bit 8 w2)),
       word_of_int (take_bit 8 (drop_bit 0 w2)),
       word_of_int (take_bit 8 (drop_bit 24 w3)),
       word_of_int (take_bit 8 (drop_bit 16 w3)),
       word_of_int (take_bit 8 (drop_bit 8 w3)),
       word_of_int (take_bit 8 (drop_bit 0 w3))]"
    by (simp only: bytes [OF le(1)] bytes [OF le(2)] bytes [OF le(3)] bytes [OF le(4)])
  also have "\<dots> = b"
    by (simp only: by0 by1 by2 by3 b)
  finally have "bytes_of_int128 C = b" .
  then show ?thesis
    by (simp add: words_of_def reverse_words_def reverse_pack_def C_def w0_def w1_def w2_def
          w3_def)
qed

lemma key_rounds_basic_total:
  assumes "cls s = SM4Basic" "\<forall>i\<in>set idx. i < 32"
  shows "\<exists>rks. key_rounds s idx K acc = Inr rks \<and> length rks = length acc + length idx"
  using assms(2)
proof (induction idx arbitrary: K acc)
  case Nil
  show ?case by simp
next
  case (Cons i idx)
  obtain k0 k1 k2 k3 where K: "K = (k0, k1, k2, k3)"
    by (cases K) auto
  from Cons.prems have i: "i < 32" and idx: "\<forall>i\<in>set idx. i < 32"
    by simp_all
  define rk where "rk = k0 XOR SM4_t_function (k1 XOR k2 XOR k3 XOR CK ! i)"
  have "key_rounds s (i # idx) K acc = key_rounds s idx (k1, k2, k3, rk) (acc @ [rk])"
    using i assms(1)
    by (simp add: K rk_def nth_err_def length_CK t_function_basic bind_err_Inr Let_def)
  moreover obtain rks where "key_rounds s idx (k1, k2, k3, rk) (acc @ [rk]) = Inr rks"
    "length rks = length (acc @ [rk]) + length idx"
    using Cons.IH [OF idx] by blast
  ultimately show ?case
    by simp
qed

lemma SM4_init_basic:
  assumes "length k = 16"
  obtains rks where
    "SM4_init SM4Basic k = Inr \<lparr>cls = SM4Basic, key = k, round_keys = Some rks, T_table = None\<rparr>"
    "length rks = 32"
proof -
  let ?s = "\<lparr>cls = SM4Basic, key = k, round_keys = None, T_table = None\<rparr>"
  define K where "K = (word_at (key ?s) 0 XOR FK ! 0, word_at (key ?s) 1 XOR FK ! 1,
    word_at (key ?s) 2 XOR FK ! 2, word_at (key ?s) 3 XOR FK ! 3)"
  have "\<exists>rks. key_rounds ?s [0..<32] K [] = Inr rks \<and>
      length rks = length ([] :: int list) + length [0..<32]"
    by (rule key_rounds_basic_total) simp_all
  then obtain rks where "key_rounds ?s [0..<32] K [] = Inr rks" "length rks = 32"
    by (auto simp del: upt_rec_numeral)
  then have "generate_round_keys ?s = Inr rks" "length rks = 32"
    by (simp_all only: generate_round_keys_def K_def)
  then show thesis
    using assms by (intro that [of rks]) (simp_all add: SM4_init_def bind_err_Inr)
qed

lemma decrypt_round_order: "map (\<lambda>i. 31 - i) [0..<32] = rev [0..<32]"
  by (simp add: upt_32)

lemma encrypt_then_decrypt:
  assumes "cls s = SM4Basic" "round_keys s = Some rk" "length rk = 32" "length block = 16"
  obtains c where "encrypt_block s block = Inr c" "decrypt_block s c = Inr block"
proof -
  have idx: "\<forall>i\<in>set [0..<32]. i < length rk"
    using assms(3) by simp
  obtain Y where Y: "rounds s rk [0..<32] (words_of block) = Inr Y"
    using rounds_basic_total [OF assms(1) idx] by blast
  have enc: "encrypt_block s block = Inr (reverse_pack Y)"
    using assms(2,4) by (simp add: encrypt_block_def attr_def bind_err_Inr Y)
  have "words32 Y"
    using assms(1) idx words32_words_of Y by (rule rounds_basic_words32)
  then have "words_of (reverse_pack Y) = reverse_words Y"
    by (rule words_of_reverse_pack)
  moreover have "rounds s rk (rev [0..<32]) (reverse_words Y) = Inr (reverse_words (words_of block))"
    using assms(1) idx Y by (rule feistel_inverse)
  ultimately have "decrypt_block s (reverse_pack Y) = Inr block"
    using assms(2,4)
    by (simp add: decrypt_block_def length_reverse_pack attr_def bind_err_Inr
          decrypt_round_order reverse_pack_words_of del: upt_rec_numeral)
  with enc show thesis
    by (rule that)
qed

text \<open>
  C3: for every key of 16 bytes and every block of 16 bytes, constructing the cipher of the
  base class, encrypting the block and decrypting the result returns the block.
\<close>

theorem decrypt_block_inverts_encrypt_block:
  assumes "length k = 16" "length block = 16"
  shows "bind_err (SM4_init SM4Basic k)
           (\<lambda>s. bind_err (encrypt_block s block) (decrypt_block s)) = Inr block"
proof -
  from assms(1) obtain rks
    where s: "SM4_init SM4Basic k =
        Inr \<lparr>cls = SM4Basic, key = k, round_keys = Some rks, T_table = None\<rparr>"
      and "length rks = 32"
    by (rule SM4_init_basic)
  then obtain c
    where "encrypt_block \<lparr>cls = SM4Basic, key = k, round_keys = Some rks, T_table = None\<rparr> block
        = Inr c"
      and "decrypt_block \<lparr>cls = SM4Basic, key = k, round_keys = Some rks, T_table = None\<rparr> c
        = Inr block"
    using assms(2) encrypt_then_decrypt [of _ rks block] by (metis sm4.select_convs(1,3))
  then show ?thesis
    by (simp add: s bind_err_Inr)
qed

theorem decrypt_block_inverts_encrypt_block_witness:
  "length vector1_key = 16 \<and> length vector1_plaintext = 16 \<and>
   bind_err (SM4_init SM4Basic vector1_key)
     (\<lambda>s. bind_err (encrypt_block s vector1_plaintext) (decrypt_block s)) = Inr vector1_plaintext"
proof -
  have h: "length vector1_key = 16" "length vector1_plaintext = 16"
    by (simp_all add: vector1_key_def vector1_plaintext_def)
  show ?thesis
    using h decrypt_block_inverts_encrypt_block [OF h] by simp
qed

end
